theory Spec2Isabelle
  imports Complex_Main
begin

section \<open>Numeric model\<close>

text \<open>
  The module \<^verbatim>\<open>DAB_inductor_selection.py\<close> computes with Python and numpy floats.
  Here a float is a real number: rounding, underflow, overflow and infinities are left
  out, and a statement below that computes a value is about the exact arithmetic the
  formulas denote. What a double does differently is therefore outside these
  definitions: a product or a sum that rounds (\<^verbatim>\<open>Lmin * 1.0001\<close> on a subnormal
  \<^verbatim>\<open>Lmin\<close>, the accumulated \<^verbatim>\<open>L += 1e-6\<close>), a result that underflows to zero or
  overflows, a radicand that rounds below zero, and the exceptions that only such
  values raise (\<^verbatim>\<open>OverflowError\<close>, numpy's \<^verbatim>\<open>LinAlgError\<close>).
  The arguments of the functions are Python numbers, as the defaults are. Two effects
  of the float operations are kept as values:
  \<^item> a division of Python numbers by zero raises \<^verbatim>\<open>ZeroDivisionError\<close>; an
    expression that divides Python numbers is guarded by its divisors and returns
    \<open>Inl ZeroDivisionError\<close>;
  \<^item> numpy operations do not raise: \<^verbatim>\<open>np.sqrt\<close> of a negative number is NaN, and a
    numpy float divided by zero is NaN or an infinity. Where such a value can reach a
    result, the numpy float is a \<open>real option\<close> with \<open>None\<close> for it, which the
    arithmetic that follows propagates.
\<close>

datatype error = ZeroDivisionError

text \<open>
  \<^verbatim>\<open>np.roots([a, b, c])\<close>: the roots of \<open>a x\<^sup>2 + b x + c\<close> as complex numbers.
  Leading zero coefficients are stripped by numpy, so a vanishing \<open>a\<close> leaves the
  linear polynomial. Every call in the module passes \<open>a = -2\<close> and \<open>b = 1\<close>.
  The order of the two roots is immaterial: the callers take the minimum of the real parts.
  These are the exact roots. numpy computes them in doubles, as the eigenvalues of the
  companion matrix, so the array it returns differs from them by rounding; where that
  difference matters, the returned array is an argument of its own
  (\<open>select_phase_shift\<close> below).
\<close>

definition np_roots :: "real \<Rightarrow> real \<Rightarrow> real \<Rightarrow> complex list" where
  "np_roots a b c =
     (if a = 0 then (if b = 0 then [] else [of_real (- c / b)])
      else (let d = csqrt (of_real (b * b - 4 * a * c))
            in [(- of_real b + d) / (2 * of_real a), (- of_real b - d) / (2 * of_real a)]))"

text \<open>
  The operating-point solver. The module repeats it inline (lines 82-87, 160-165,
  272-278, 289-293, 356-361):
  \<^verbatim>\<open>
    a = -2
    b = 1
    c = -power * fsw * L / n / V1 / V2
    roots = np.roots([a, b, c])
    phi = min(np.real(roots))
  \<close>
\<close>

definition quadratic_c :: "real \<Rightarrow> real \<Rightarrow> real \<Rightarrow> real \<Rightarrow> real \<Rightarrow> real \<Rightarrow> real" where
  "quadratic_c pw fsw L n V1 V2 = - pw * fsw * L / n / V1 / V2"

definition solve_phase_shift :: "real \<Rightarrow> real \<Rightarrow> real \<Rightarrow> real \<Rightarrow> real \<Rightarrow> real \<Rightarrow> error + real" where
  "solve_phase_shift pw fsw L n V1 V2 =
     (if n = 0 \<or> V1 = 0 \<or> V2 = 0 then Inl ZeroDivisionError
      else (let a = - 2; b = 1; c = quadratic_c pw fsw L n V1 V2;
                roots = np_roots a b c
            in Inr (min_list (map Re roots))))"


text \<open>The discriminant \<open>b\<^sup>2 - 4 a c\<close> of that quadratic, with \<open>a = -2\<close> and \<open>b = 1\<close>.\<close>

definition discriminant :: "real \<Rightarrow> real \<Rightarrow> real \<Rightarrow> real \<Rightarrow> real \<Rightarrow> real \<Rightarrow> real" where
  "discriminant pw fsw L n V1 V2 = 1 * 1 - 4 * (- 2) * quadratic_c pw fsw L n V1 V2"

text \<open>
  The power-transfer equation, as the module writes it wherever it evaluates it
  (lines 90, 279, 294, 309, 362, 374):
  \<^verbatim>\<open>n * V1 * V2 * phi * (1 - 2*phi) / fsw / L\<close>
  Here it is evaluated on Python numbers, as at lines 309 and 374, where a zero divisor
  raises.
\<close>

definition power_transfer :: "real \<Rightarrow> real \<Rightarrow> real \<Rightarrow> real \<Rightarrow> real \<Rightarrow> real \<Rightarrow> error + real" where
  "power_transfer n V1 V2 phi fsw L =
     (if fsw = 0 \<or> L = 0 then Inl ZeroDivisionError
      else Inr (n * V1 * V2 * phi * (1 - 2 * phi) / fsw / L))"

text \<open>
  The resolution step (lines 90-91, 279-280, 294-295, 362-363): the power delivered at
  \<open>phi\<close> minus the power delivered at \<open>phi - phase_shift_min\<close>. At these lines
  \<open>phi\<close> is the numpy float of the solver, so the divisions are numpy's and raise
  nothing. With a zero divisor numpy gives NaN or an infinity, where this definition has
  the quotient of HOL. The functions below use its value only where \<open>fsw\<close> and \<open>L\<close>
  are non-zero: a sweep iteration and the design raise otherwise before they return
  (lemmas \<open>resolution_point_divisors\<close> and \<open>sizing_design_divisors\<close>), and in the
  lower-bound search \<open>L\<close> is non-zero once the solver has returned (lemma
  \<open>lower_bound_search_divisors\<close>), \<open>fsw\<close> being non-zero since \<^verbatim>\<open>Ts = 1 / fsw\<close>
  has been computed.
\<close>

definition resolution_step :: "real \<Rightarrow> real \<Rightarrow> real \<Rightarrow> real \<Rightarrow> real \<Rightarrow> real \<Rightarrow> real \<Rightarrow> real" where
  "resolution_step n V1 V2 phi phase_shift_min fsw L =
     (n * V1 * V2 * phi * (1 - 2 * phi) / fsw / L) -
     (n * V1 * V2 * (phi - phase_shift_min) * (1 - 2 * (phi - phase_shift_min)) / fsw / L)"

text \<open>
  The resolution step at full power (lines 309-310), where \<^verbatim>\<open>phi_max\<close> and
  \<^verbatim>\<open>phase_shift_min\<close> are Python floats and a zero divisor raises.
\<close>

definition full_power_resolution :: "real \<Rightarrow> real \<Rightarrow> real \<Rightarrow> real \<Rightarrow> real \<Rightarrow> real \<Rightarrow> real \<Rightarrow> error + real" where
  "full_power_resolution n V1 V2 phi phase_shift_min fsw Lmax =
     (case power_transfer n V1 V2 phi fsw Lmax of
        Inl e \<Rightarrow> Inl e
      | Inr p1 \<Rightarrow>
          (case power_transfer n V1 V2 (phi - phase_shift_min) fsw Lmax of
             Inl e \<Rightarrow> Inl e
           | Inr p2 \<Rightarrow> Inr (p1 - p2)))"

section \<open>Semiconductor constants\<close>

text \<open>The module's globals (lines 19-22).\<close>

definition Coss_pri :: real where
  "Coss_pri = 92 / 10 ^ 12 / 10000"

definition Ron_pri :: real where
  "Ron_pri = 80 / 10 ^ 3"

definition Coss_sec :: real where
  "Coss_sec = 260 / 10 ^ 12"

definition Ron_sec :: real where
  "Ron_sec = 21 / 10 ^ 3"

section \<open>RMS-current model\<close>

type_synonym npfloat = "real option"

definition np_sqrt :: "real \<Rightarrow> npfloat" where
  "np_sqrt x = (if x < 0 then None else Some (sqrt x))"

definition np_add :: "npfloat \<Rightarrow> npfloat \<Rightarrow> npfloat" where
  "np_add x y = (case x of None \<Rightarrow> None | Some u \<Rightarrow> (case y of None \<Rightarrow> None | Some v \<Rightarrow> Some (u + v)))"

text \<open>\<^verbatim>\<open>Irms_prim_phaseShift\<close> (lines 25-52).\<close>

definition Irms_prim_phaseShift :: "real \<Rightarrow> real \<Rightarrow> real \<Rightarrow> real \<Rightarrow> real \<Rightarrow> real \<Rightarrow> error + npfloat" where
  "Irms_prim_phaseShift phi V1 V2 n fsw L =
     (let D1 = 1 / 2; D2 = 1 / 2;
          eRMS = (1 - 4 * \<bar>phi\<bar>) *
                 (1 - 2 * \<bar>phi\<bar> + 4 * phi ^ 2 - 3 * (D1 * (1 - D1) + D2 * (1 - D2)))
      in if 2 * fsw * L = 0 then Inl ZeroDivisionError
         else Inr (map_option (\<lambda>r. 1 / (2 * fsw * L) * r)
                (np_sqrt (D1 ^ 2 * V1 ^ 2 * (1 - 4 / 3 * D1) +
                          D2 ^ 2 * n ^ 2 * V2 ^ 2 * (1 - 4 / 3 * D2) +
                          n * V1 * V2 / 3 * eRMS))))"

text \<open>
  The conduction-loss block that follows every call of \<^verbatim>\<open>Irms_prim_phaseShift\<close>
  (lines 95-101, 168-175, 382-388):
  \<^verbatim>\<open>
    I_sec_RMS = I_pri_RMS * n
    pri_Pcond = 2 * Ron_pri * I_pri_RMS**2
    sec_Pcond = 2 * Ron_sec * I_sec_RMS**2
  \<close>
\<close>

definition secondary_rms :: "npfloat \<Rightarrow> real \<Rightarrow> npfloat" where
  "secondary_rms I_pri_RMS n = map_option (\<lambda>i. i * n) I_pri_RMS"

definition conduction_loss :: "npfloat \<Rightarrow> npfloat \<Rightarrow> npfloat" where
  "conduction_loss I_pri_RMS I_sec_RMS =
     (let pri_Pcond = map_option (\<lambda>i. 2 * Ron_pri * i ^ 2) I_pri_RMS;
          sec_Pcond = map_option (\<lambda>i. 2 * Ron_sec * i ^ 2) I_sec_RMS
      in np_add pri_Pcond sec_Pcond)"

section \<open>Sweeps\<close>

text \<open>
  One iteration of the loop of \<^verbatim>\<open>ploss_vs_resolution\<close> (lines 81-101): the entries
  appended to \<^verbatim>\<open>Ls\<close>, \<^verbatim>\<open>phis\<close>, \<^verbatim>\<open>resolutions\<close> and \<^verbatim>\<open>Pconds\<close>, with the two RMS
  currents of that iteration.
\<close>

record resolution_sample =
  rs_L :: real
  rs_phi :: real
  rs_resolution :: real
  rs_I_pri_RMS :: npfloat
  rs_I_sec_RMS :: npfloat
  rs_Pcond :: npfloat

definition resolution_point ::
  "real \<Rightarrow> real \<Rightarrow> real \<Rightarrow> real \<Rightarrow> real \<Rightarrow> real \<Rightarrow> real \<Rightarrow> error + resolution_sample" where
  "resolution_point pw L fsw n V1 V2 phase_shift_min =
     (case solve_phase_shift pw fsw L n V1 V2 of
        Inl e \<Rightarrow> Inl e
      | Inr phi \<Rightarrow>
          (let resolution = resolution_step n V1 V2 phi phase_shift_min fsw L
           in case Irms_prim_phaseShift phi V1 V2 n fsw L of
                Inl e \<Rightarrow> Inl e
              | Inr I_pri_RMS \<Rightarrow>
                  (let I_sec_RMS = secondary_rms I_pri_RMS n
                   in Inr \<lparr>rs_L = L, rs_phi = phi, rs_resolution = resolution,
                           rs_I_pri_RMS = I_pri_RMS, rs_I_sec_RMS = I_sec_RMS,
                           rs_Pcond = conduction_loss I_pri_RMS I_sec_RMS\<rparr>)))"

text \<open>
  The loop \<^verbatim>\<open>while L <= Lmax: ...; L += 1e-6\<close> of \<^verbatim>\<open>ploss_vs_resolution\<close>
  (lines 79-103). An exception in an iteration ends the sweep.
\<close>

function ploss_vs_resolution_loop ::
  "real \<Rightarrow> real \<Rightarrow> real \<Rightarrow> real \<Rightarrow> real \<Rightarrow> real \<Rightarrow> real \<Rightarrow> real \<Rightarrow> error + resolution_sample list" where
  "ploss_vs_resolution_loop L Lmax pw fsw n V1 V2 phase_shift_min =
     (if L \<le> Lmax then
        (case resolution_point pw L fsw n V1 V2 phase_shift_min of
           Inl e \<Rightarrow> Inl e
         | Inr s \<Rightarrow>
             (case ploss_vs_resolution_loop (L + 1 / 10 ^ 6) Lmax pw fsw n V1 V2 phase_shift_min of
                Inl e \<Rightarrow> Inl e
              | Inr ss \<Rightarrow> Inr (s # ss)))
      else Inr [])"
  by pat_completeness auto
termination
proof (relation "measure (\<lambda>(L, Lmax, _). nat \<lceil>(Lmax - L) * 10 ^ 6 + 1\<rceil>)")
  show "wf (measure (\<lambda>(L, Lmax, _). nat \<lceil>(Lmax - L) * 10 ^ 6 + 1\<rceil>))"
    by simp
next
  fix L Lmax pw fsw n V1 V2 phase_shift_min :: real and x2 :: resolution_sample
  assume le: "L \<le> Lmax"
  have eq: "(Lmax - (L + 1 / 10 ^ 6)) * 10 ^ 6 + 1 = (Lmax - L) * 10 ^ 6"
    by (simp add: algebra_simps)
  have "0 \<le> \<lceil>(Lmax - L) * 10 ^ 6\<rceil>"
    using le by simp
  then have "nat \<lceil>(Lmax - L) * 10 ^ 6\<rceil> < nat \<lceil>(Lmax - L) * 10 ^ 6 + 1\<rceil>"
    by (simp only: ceiling_add_one)
  then show
    "((L + 1 / 10 ^ 6, Lmax, pw, fsw, n, V1, V2, phase_shift_min),
      (L, Lmax, pw, fsw, n, V1, V2, phase_shift_min))
     \<in> measure (\<lambda>(L, Lmax, _). nat \<lceil>(Lmax - L) * 10 ^ 6 + 1\<rceil>)"
    by (simp only: in_measure prod.case eq)
qed

declare ploss_vs_resolution_loop.simps [simp del]

text \<open>
  \<^verbatim>\<open>ploss_vs_resolution\<close> (lines 55-134): the series handed to the plot. The
  parameter \<^verbatim>\<open>Ts\<close> is not used by the body.
\<close>

definition ploss_vs_resolution ::
  "real \<Rightarrow> real \<Rightarrow> real \<Rightarrow> real \<Rightarrow> real \<Rightarrow> real \<Rightarrow> real \<Rightarrow> real \<Rightarrow> real \<Rightarrow> error + resolution_sample list" where
  "ploss_vs_resolution pw Lmin Lmax fsw n V1 V2 Ts phase_shift_min =
     ploss_vs_resolution_loop Lmin Lmax pw fsw n V1 V2 phase_shift_min"

text \<open>\<^verbatim>\<open>int(x)\<close> of a float: truncation towards zero.\<close>

definition py_int :: "real \<Rightarrow> int" where
  "py_int x = (if 0 \<le> x then \<lfloor>x\<rfloor> else \<lceil>x\<rceil>)"

text \<open>
  One iteration of the loop of \<^verbatim>\<open>ploss_vs_P\<close> (lines 158-178). The efficiency
  \<^verbatim>\<open>1 - Pconds[-1] / P\<close> divides a numpy float, so \<open>P = 0\<close> raises nothing.
\<close>

record power_sample =
  ps_P :: int
  ps_I_sec_RMS :: npfloat
  ps_Pcond :: npfloat
  ps_eff :: npfloat

definition power_point :: "int \<Rightarrow> real \<Rightarrow> real \<Rightarrow> real \<Rightarrow> real \<Rightarrow> real \<Rightarrow> error + power_sample" where
  "power_point P Ltot fsw n V1 V2 =
     (case solve_phase_shift (of_int P) fsw Ltot n V1 V2 of
        Inl e \<Rightarrow> Inl e
      | Inr phi \<Rightarrow>
          (case Irms_prim_phaseShift phi V1 V2 n fsw Ltot of
             Inl e \<Rightarrow> Inl e
           | Inr I_pri_RMS \<Rightarrow>
               (let I_sec_RMS = secondary_rms I_pri_RMS n;
                    Pcond = conduction_loss I_pri_RMS I_sec_RMS
                in Inr \<lparr>ps_P = P, ps_I_sec_RMS = I_sec_RMS, ps_Pcond = Pcond,
                        ps_eff = (if P = 0 then None
                                  else map_option (\<lambda>l. 1 - l / of_int P) Pcond)\<rparr>)))"

fun ploss_vs_P_loop :: "int list \<Rightarrow> real \<Rightarrow> real \<Rightarrow> real \<Rightarrow> real \<Rightarrow> real \<Rightarrow> error + power_sample list" where
  "ploss_vs_P_loop [] Ltot fsw n V1 V2 = Inr []"
| "ploss_vs_P_loop (P # Ps) Ltot fsw n V1 V2 =
     (case power_point P Ltot fsw n V1 V2 of
        Inl e \<Rightarrow> Inl e
      | Inr s \<Rightarrow>
          (case ploss_vs_P_loop Ps Ltot fsw n V1 V2 of
             Inl e \<Rightarrow> Inl e
           | Inr ss \<Rightarrow> Inr (s # ss)))"

text \<open>
  \<^verbatim>\<open>ploss_vs_P\<close> (lines 137-208), with
  \<^verbatim>\<open>for P in range(int(Pmin), int(Pmax) + 1)\<close>.
\<close>

definition ploss_vs_P :: "real \<Rightarrow> real \<Rightarrow> real \<Rightarrow> real \<Rightarrow> real \<Rightarrow> real \<Rightarrow> real \<Rightarrow> error + power_sample list" where
  "ploss_vs_P Pmin Pmax Ltot fsw n V1 V2 =
     ploss_vs_P_loop [py_int Pmin .. py_int Pmax] Ltot fsw n V1 V2"

section \<open>Inductor sizing\<close>

text \<open>
  The arguments of \<^verbatim>\<open>dab_inductor_sizing_phaseShift\<close> (lines 211-219), each
  \<^verbatim>\<open>Optional[float]\<close> with default \<^verbatim>\<open>None\<close>.
\<close>

record sizing_args =
  arg_P :: "real option"
  arg_V1 :: "real option"
  arg_V2 :: "real option"
  arg_fsw :: "real option"
  arg_f_clk :: "real option"
  arg_Llk :: "real option"
  arg_n :: "real option"
  arg_resolution_percentage :: "real option"
  arg_Ltot :: "real option"

text \<open>
  What \<^verbatim>\<open>input(...)\<close> does at line 338: it raises \<^verbatim>\<open>EOFError\<close> or
  \<^verbatim>\<open>KeyboardInterrupt\<close>, or returns a line of text. Of the text only the outcome of
  \<^verbatim>\<open>float(Ltot_input)\<close> matters: \<open>Line None\<close> is a text on which it raises
  \<^verbatim>\<open>ValueError\<close>, \<open>Line (Some v)\<close> a text it parses to \<open>v\<close>.
\<close>

datatype console_reply = EOFError | KeyboardInterrupt | Line "real option"

text \<open>The two values of \<^verbatim>\<open>limiter\<close> (lines 297-300).\<close>

datatype limiter = Resolution_requirement | ZVS_condition_at_minimum_power

text \<open>
  The returned dictionary (lines 407-417), and what the routine shows besides:
  the limiter, whether \<^verbatim>\<open>warnings.warn\<close> was called at line 314, whether the
  out-of-bounds \<^verbatim>\<open>WARNING\<close> was printed at line 350, and the series of the three
  figures (\<open>None\<close> for a figure that was not generated).
\<close>

record sizing_output =
  out_Lmin :: real
  out_Lmax :: real
  out_Ltot :: real
  out_phi :: real
  out_resolution :: real
  out_I_pri_RMS :: npfloat
  out_I_sec_RMS :: npfloat
  out_total_Pcond :: npfloat
  out_efficiency :: npfloat
  out_limiter :: limiter
  out_infeasible_warning :: bool
  out_bounds_warning :: bool
  out_fig1 :: "resolution_sample list option"
  out_fig2 :: "resolution_sample list option"
  out_fig3 :: "power_sample list option"

text \<open>
  The closed-form ZVS estimate (lines 268-269):
  \<^verbatim>\<open>
    Iout_min = P_min / V2
    Lmin = Coss_pri * (2 * Ts * V1 / ((1/n) * Iout_min * Ts + 8 * Coss_pri * V1))**2
  \<close>
\<close>

definition zvs_lower_bound :: "real \<Rightarrow> real \<Rightarrow> real \<Rightarrow> real \<Rightarrow> real \<Rightarrow> error + real" where
  "zvs_lower_bound P_min V1 V2 n Ts =
     (if V2 = 0 then Inl ZeroDivisionError
      else (let Iout_min = P_min / V2
            in if n = 0 then Inl ZeroDivisionError
               else if (1 / n) * Iout_min * Ts + 8 * Coss_pri * V1 = 0 then Inl ZeroDivisionError
               else Inr (Coss_pri *
                         (2 * Ts * V1 / ((1 / n) * Iout_min * Ts + 8 * Coss_pri * V1)) ^ 2)))"

text \<open>
  The search loop (lines 286-295), on the variables it updates: \<^verbatim>\<open>Lmin\<close>,
  \<^verbatim>\<open>phi\<close>, \<^verbatim>\<open>max_deltaP\<close> and \<^verbatim>\<open>resolution_limited\<close>. The loop has no iteration
  cap; \<open>None\<close> is a run that never leaves it.
\<close>

partial_function (option) lmin_loop ::
  "real \<Rightarrow> real \<Rightarrow> real \<Rightarrow> real \<Rightarrow> real \<Rightarrow> real \<Rightarrow> real \<Rightarrow> real \<Rightarrow> real \<Rightarrow> real \<Rightarrow> bool
   \<Rightarrow> (error + real \<times> real \<times> real \<times> bool) option" where
  "lmin_loop max_allowed_deltaP P_min fsw n V1 V2 phase_shift_min
             Lmin phi max_deltaP resolution_limited =
     (if max_deltaP > max_allowed_deltaP then
        (let Lmin' = Lmin * (10001 / 10000)
         in case solve_phase_shift P_min fsw Lmin' n V1 V2 of
              Inl e \<Rightarrow> Some (Inl e)
            | Inr phi' \<Rightarrow>
                lmin_loop max_allowed_deltaP P_min fsw n V1 V2 phase_shift_min
                          Lmin' phi' (resolution_step n V1 V2 phi' phase_shift_min fsw Lmin')
                          True)
      else Some (Inr (Lmin, phi, max_deltaP, resolution_limited)))"

text \<open>
  The lower bound on \<open>L\<close> (lines 268-295): the ZVS estimate, the phase shift and the
  resolution step there, then the search loop.
\<close>

definition lower_bound_search ::
  "real \<Rightarrow> real \<Rightarrow> real \<Rightarrow> real \<Rightarrow> real \<Rightarrow> real \<Rightarrow> real \<Rightarrow> real
   \<Rightarrow> (error + real \<times> real \<times> real \<times> bool) option" where
  "lower_bound_search max_allowed_deltaP P_min fsw n V1 V2 Ts phase_shift_min =
     (case zvs_lower_bound P_min V1 V2 n Ts of
        Inl e \<Rightarrow> Some (Inl e)
      | Inr Lmin \<Rightarrow>
          (case solve_phase_shift P_min fsw Lmin n V1 V2 of
             Inl e \<Rightarrow> Some (Inl e)
           | Inr phi \<Rightarrow>
               lmin_loop max_allowed_deltaP P_min fsw n V1 V2 phase_shift_min
                         Lmin phi (resolution_step n V1 V2 phi phase_shift_min fsw Lmin)
                         False))"

text \<open>
  The upper bound on \<open>L\<close> (lines 307-308):
  \<^verbatim>\<open>
    phi_max = 0.25
    Lmax = (n * V1 * V2 * 0.25 * (1 - 2*phi_max)) / (P * fsw)
  \<close>
\<close>

definition phi_max :: real where
  "phi_max = 1 / 4"

definition power_upper_bound :: "real \<Rightarrow> real \<Rightarrow> real \<Rightarrow> real \<Rightarrow> real \<Rightarrow> error + real" where
  "power_upper_bound n V1 V2 P fsw =
     (if P * fsw = 0 then Inl ZeroDivisionError
      else Inr ((n * V1 * V2 * (1 / 4) * (1 - 2 * phi_max)) / (P * fsw)))"

text \<open>
  The feasibility check (lines 313-331): the warning, or the two
  loss-versus-resolution figures.
\<close>

definition feasibility_report ::
  "real \<Rightarrow> real \<Rightarrow> real \<Rightarrow> real \<Rightarrow> real \<Rightarrow> real \<Rightarrow> real \<Rightarrow> real \<Rightarrow> real \<Rightarrow> real
   \<Rightarrow> error + bool \<times> resolution_sample list option \<times> resolution_sample list option" where
  "feasibility_report P P_min Lmin Lmax fsw n V1 V2 Ts phase_shift_min =
     (if Lmax < Lmin then Inr (True, None, None)
      else (case ploss_vs_resolution P Lmin Lmax fsw n V1 V2 Ts phase_shift_min of
              Inl e \<Rightarrow> Inl e
            | Inr fig1 \<Rightarrow>
                (case ploss_vs_resolution P_min Lmin Lmax fsw n V1 V2 Ts phase_shift_min of
                   Inl e \<Rightarrow> Inl e
                 | Inr fig2 \<Rightarrow> Inr (False, Some fig1, Some fig2))))"

text \<open>The manual inductance selection (lines 336-347).\<close>

definition select_Ltot :: "real option \<Rightarrow> console_reply \<Rightarrow> real \<Rightarrow> real \<Rightarrow> real" where
  "select_Ltot Ltot reply Lmin Lmax =
     (case Ltot of
        Some v \<Rightarrow> v
      | None \<Rightarrow>
          (case reply of
             Line (Some v) \<Rightarrow> v
           | Line None \<Rightarrow> (Lmin + Lmax) / 2
           | EOFError \<Rightarrow> (Lmin + Lmax) / 2
           | KeyboardInterrupt \<Rightarrow> (Lmin + Lmax) / 2))"

text \<open>
  The design at the selected inductance (lines 349-417). Of the values that are only
  printed, \<^verbatim>\<open>P_max_inductanceChoice\<close> (line 374) is the power-transfer equation on
  Python numbers and raises on a zero divisor; \<^verbatim>\<open>t_phi\<close>, \<^verbatim>\<open>Lext\<close> and
  \<^verbatim>\<open>P_min_inductanceChoice\<close> (numpy arithmetic) raise nothing and are left out.
  The efficiency \<^verbatim>\<open>Pout / Pin\<close> divides a numpy float by \<open>P\<close>, which is non-zero
  once \<open>Lmax\<close> has been computed.
\<close>

definition sizing_design ::
  "real \<Rightarrow> real \<Rightarrow> real \<Rightarrow> real \<Rightarrow> real \<Rightarrow> real \<Rightarrow> real \<Rightarrow> real \<Rightarrow> real \<Rightarrow> real \<Rightarrow> limiter
   \<Rightarrow> bool \<Rightarrow> resolution_sample list option \<Rightarrow> resolution_sample list option
   \<Rightarrow> error + sizing_output" where
  "sizing_design P P_min V1 V2 fsw n phase_shift_min Lmin Lmax Ltot lmt warned fig1 fig2 =
     (case solve_phase_shift P fsw Ltot n V1 V2 of
        Inl e \<Rightarrow> Inl e
      | Inr phi \<Rightarrow>
          (let resolution = resolution_step n V1 V2 phi phase_shift_min fsw Ltot
           in case power_transfer n V2 V1 (1 / 4) fsw Ltot of
                Inl e \<Rightarrow> Inl e
              | Inr P_max_inductanceChoice \<Rightarrow>
                  (case Irms_prim_phaseShift phi V1 V2 n fsw Ltot of
                     Inl e \<Rightarrow> Inl e
                   | Inr I_pri_RMS \<Rightarrow>
                       (let I_sec_RMS = secondary_rms I_pri_RMS n;
                            total_Pcond = conduction_loss I_pri_RMS I_sec_RMS;
                            nu = map_option (\<lambda>l. (P - l) / P) total_Pcond
                        in case (if Lmax \<ge> Lmin
                                 then map_sum id Some (ploss_vs_P P_min P Ltot fsw n V1 V2)
                                 else Inr None) of
                             Inl e \<Rightarrow> Inl e
                           | Inr fig3 \<Rightarrow>
                               Inr \<lparr>out_Lmin = Lmin, out_Lmax = Lmax, out_Ltot = Ltot,
                                    out_phi = phi, out_resolution = resolution,
                                    out_I_pri_RMS = I_pri_RMS, out_I_sec_RMS = I_sec_RMS,
                                    out_total_Pcond = total_Pcond, out_efficiency = nu,
                                    out_limiter = lmt, out_infeasible_warning = warned,
                                    out_bounds_warning = (Ltot < Lmin \<or> Ltot > Lmax),
                                    out_fig1 = fig1, out_fig2 = fig2, out_fig3 = fig3\<rparr>))))"

text \<open>
  The defaults (lines 237-252): \<^verbatim>\<open>if P is None: P = 1e3\<close>, and so on for each
  argument but \<^verbatim>\<open>Ltot\<close>.
\<close>

definition param_P :: "sizing_args \<Rightarrow> real" where
  "param_P args = (case arg_P args of None \<Rightarrow> 1000 | Some v \<Rightarrow> v)"

definition param_V1 :: "sizing_args \<Rightarrow> real" where
  "param_V1 args = (case arg_V1 args of None \<Rightarrow> 720 | Some v \<Rightarrow> v)"

definition param_V2 :: "sizing_args \<Rightarrow> real" where
  "param_V2 args = (case arg_V2 args of None \<Rightarrow> 40 | Some v \<Rightarrow> v)"

definition param_fsw :: "sizing_args \<Rightarrow> real" where
  "param_fsw args = (case arg_fsw args of None \<Rightarrow> 100000 | Some v \<Rightarrow> v)"

definition param_f_clk :: "sizing_args \<Rightarrow> real" where
  "param_f_clk args = (case arg_f_clk args of None \<Rightarrow> 250000000 | Some v \<Rightarrow> v)"

definition param_Llk :: "sizing_args \<Rightarrow> real" where
  "param_Llk args = (case arg_Llk args of None \<Rightarrow> 10 / 10 ^ 6 | Some v \<Rightarrow> v)"

definition param_n :: "sizing_args \<Rightarrow> real" where
  "param_n args = (case arg_n args of None \<Rightarrow> 15 | Some v \<Rightarrow> v)"

definition param_resolution_percentage :: "sizing_args \<Rightarrow> real" where
  "param_resolution_percentage args =
     (case arg_resolution_percentage args of None \<Rightarrow> 25 / 1000 | Some v \<Rightarrow> v)"

text \<open>
  \<^verbatim>\<open>dab_inductor_sizing_phaseShift\<close> (lines 211-417). \<open>None\<close> is a run that never
  leaves the search loop; \<open>Some (Inl e)\<close> a run that raises \<open>e\<close>. The leakage
  inductance \<^verbatim>\<open>Llk\<close> enters only the printed \<^verbatim>\<open>Lext\<close>.
\<close>

definition dab_inductor_sizing_phaseShift ::
  "sizing_args \<Rightarrow> console_reply \<Rightarrow> (error + sizing_output) option" where
  "dab_inductor_sizing_phaseShift args reply =
     (let P = param_P args;
          V1 = param_V1 args;
          V2 = param_V2 args;
          fsw = param_fsw args;
          f_clk = param_f_clk args;
          n = param_n args;
          resolution_percentage = param_resolution_percentage args
      in if fsw = 0 \<or> f_clk = 0 then Some (Inl ZeroDivisionError)
         else (let Ts = 1 / fsw;
                   P_min = 1 / 2 * P;
                   max_allowed_deltaP = resolution_percentage * P;
                   phase_shift_min = 1 / f_clk / Ts
               in case lower_bound_search max_allowed_deltaP P_min fsw n V1 V2 Ts
                         phase_shift_min of
                    None \<Rightarrow> None
                  | Some (Inl e) \<Rightarrow> Some (Inl e)
                  | Some (Inr (Lmin, phi, max_deltaP, resolution_limited)) \<Rightarrow>
                      Some
                       (let lmt = (if resolution_limited then Resolution_requirement
                                   else ZVS_condition_at_minimum_power)
                        in case power_upper_bound n V1 V2 P fsw of
                             Inl e \<Rightarrow> Inl e
                           | Inr Lmax \<Rightarrow>
                               (case full_power_resolution n V1 V2 phi_max phase_shift_min fsw Lmax of
                                  Inl e \<Rightarrow> Inl e
                                | Inr min_deltaP \<Rightarrow>
                                    (case feasibility_report P P_min Lmin Lmax fsw n V1 V2 Ts
                                            phase_shift_min of
                                       Inl e \<Rightarrow> Inl e
                                     | Inr (warned, fig1, fig2) \<Rightarrow>
                                         sizing_design P P_min V1 V2 fsw n phase_shift_min
                                           Lmin Lmax
                                           (select_Ltot (arg_Ltot args) reply Lmin Lmax)
                                           lmt warned fig1 fig2)))))"

section \<open>Properties of the operating-point solver\<close>

lemma np_roots_real:
  assumes "0 \<le> 1 + 8 * c"
  shows "np_roots (- 2) 1 c =
    [of_real ((1 - sqrt (1 + 8 * c)) / 4), of_real ((1 + sqrt (1 + 8 * c)) / 4)]"
proof -
  have "1 * 1 - 4 * (- 2) * c = 1 + 8 * c" by simp
  moreover have "csqrt (of_real (1 + 8 * c)) = of_real (sqrt (1 + 8 * c))"
    using assms by (rule csqrt_of_real)
  ultimately have d: "csqrt (of_real (1 * 1 - 4 * (- 2) * c)) = of_real (sqrt (1 + 8 * c))"
    by (simp only:)
  have "np_roots (- 2) 1 c =
     [(- of_real 1 + of_real (sqrt (1 + 8 * c))) / (2 * of_real (- 2)),
      (- of_real 1 - of_real (sqrt (1 + 8 * c))) / (2 * of_real (- 2))]"
    unfolding np_roots_def Let_def d by simp
  also have "\<dots> = [of_real ((1 - sqrt (1 + 8 * c)) / 4), of_real ((1 + sqrt (1 + 8 * c)) / 4)]"
    by (simp add: field_simps)
  finally show ?thesis .
qed

lemma np_roots_complex:
  assumes "1 + 8 * c < 0"
  shows "np_roots (- 2) 1 c =
    [Complex (1 / 4) (- sqrt (- (1 + 8 * c)) / 4), Complex (1 / 4) (sqrt (- (1 + 8 * c)) / 4)]"
proof -
  have "1 * 1 - 4 * (- 2) * c = 1 + 8 * c" by simp
  moreover have "csqrt (of_real (1 + 8 * c)) = \<i> * of_real (sqrt (- (1 + 8 * c)))"
    using assms by (simp add: csqrt_of_real' abs_if)
  ultimately have d: "csqrt (of_real (1 * 1 - 4 * (- 2) * c)) = \<i> * of_real (sqrt (- (1 + 8 * c)))"
    by (simp only:)
  have "np_roots (- 2) 1 c =
     [(- of_real 1 + \<i> * of_real (sqrt (- (1 + 8 * c)))) / (2 * of_real (- 2)),
      (- of_real 1 - \<i> * of_real (sqrt (- (1 + 8 * c)))) / (2 * of_real (- 2))]"
    unfolding np_roots_def Let_def d by simp
  also have "\<dots> = [Complex (1 / 4) (- sqrt (- (1 + 8 * c)) / 4), Complex (1 / 4) (sqrt (- (1 + 8 * c)) / 4)]"
    by (simp add: complex_eq_iff field_simps)
  finally show ?thesis .
qed

lemma discriminant_eq: "discriminant pw fsw L n V1 V2 = 1 + 8 * quadratic_c pw fsw L n V1 V2"
  by (simp add: discriminant_def)

lemma solve_phase_shift_real:
  assumes "n \<noteq> 0" "V1 \<noteq> 0" "V2 \<noteq> 0" and "0 \<le> discriminant pw fsw L n V1 V2"
  shows "solve_phase_shift pw fsw L n V1 V2 = Inr ((1 - sqrt (discriminant pw fsw L n V1 V2)) / 4)"
proof -
  have "0 \<le> sqrt (discriminant pw fsw L n V1 V2)"
    using assms(4) by simp
  then show ?thesis
    using assms
    by (simp add: solve_phase_shift_def Let_def discriminant_eq np_roots_real min_def)
qed

lemma solve_phase_shift_complex:
  assumes "n \<noteq> 0" "V1 \<noteq> 0" "V2 \<noteq> 0" and "discriminant pw fsw L n V1 V2 < 0"
  shows "solve_phase_shift pw fsw L n V1 V2 = Inr (1 / 4)"
  using assms
  by (simp add: solve_phase_shift_def Let_def discriminant_eq np_roots_complex)

lemma phase_shift_product:
  assumes "0 \<le> D"
  shows "(1 - sqrt D) / 4 * (1 - 2 * ((1 - sqrt D) / 4)) = (1 - D) / 8"
proof -
  have "sqrt D * sqrt D = D" using assms by simp
  then show ?thesis by (simp add: field_simps)
qed

text \<open>
  C1. For positive \<open>P\<close>, \<open>V1\<close>, \<open>V2\<close>, \<open>n\<close>, \<open>fsw\<close>, \<open>L\<close> with a non-negative
  discriminant, the solver returns a phase shift, and the power-transfer equation at that
  phase shift gives back \<open>P\<close>.
\<close>

theorem phase_shift_recovers_power:
  assumes "0 < P" "0 < V1" "0 < V2" "0 < n" "0 < fsw" "0 < L"
    and "0 \<le> discriminant P fsw L n V1 V2"
  shows "\<exists>phi. solve_phase_shift P fsw L n V1 V2 = Inr phi \<and>
               power_transfer n V1 V2 phi fsw L = Inr P"
proof -
  let ?D = "discriminant P fsw L n V1 V2"
  let ?phi = "(1 - sqrt ?D) / 4"
  have s: "solve_phase_shift P fsw L n V1 V2 = Inr ?phi"
    using assms by (intro solve_phase_shift_real) auto
  have "?phi * (1 - 2 * ?phi) = (1 - ?D) / 8"
    using assms(7) by (rule phase_shift_product)
  also have "\<dots> = P * fsw * L / (n * V1 * V2)"
    by (simp add: discriminant_eq quadratic_c_def)
  finally have prod: "?phi * (1 - 2 * ?phi) = P * fsw * L / (n * V1 * V2)" .
  have "n * V1 * V2 * ?phi * (1 - 2 * ?phi) / fsw / L
        = n * V1 * V2 * (?phi * (1 - 2 * ?phi)) / fsw / L"
    by (simp only: mult.assoc)
  also have "\<dots> = P"
    unfolding prod using assms by simp
  finally have "power_transfer n V1 V2 ?phi fsw L = Inr P"
    using assms by (simp add: power_transfer_def)
  with s show ?thesis by blast
qed

theorem phase_shift_recovers_power_witness:
  "0 \<le> discriminant 3 1 (1 / 32) 1 1 1 \<and>
   (\<exists>phi. solve_phase_shift 3 1 (1 / 32) 1 1 1 = Inr phi \<and>
          power_transfer 1 1 1 phi 1 (1 / 32) = Inr 3)"
  using phase_shift_recovers_power [of 3 1 1 1 1 "1 / 32"]
  by (simp add: discriminant_def quadratic_c_def)

lemma quadratic_root_ge:
  fixes r c :: real
  assumes D: "0 \<le> 1 + 8 * c" and root: "(- 2) * r ^ 2 + 1 * r + c = 0"
  shows "(1 - sqrt (1 + 8 * c)) / 4 \<le> r"
proof -
  have "(4 * r - 1) ^ 2 = 1 + 8 * c"
    using root by (simp add: power2_eq_square algebra_simps)
  then have "\<bar>4 * r - 1\<bar> = sqrt (1 + 8 * c)"
    by (metis real_sqrt_abs)
  then have "- sqrt (1 + 8 * c) \<le> 4 * r - 1"
    using abs_ge_minus_self [of "4 * r - 1"] by simp
  then show ?thesis by simp
qed

lemma quadratic_roots:
  fixes c :: real
  assumes D: "0 \<le> 1 + 8 * c"
  shows "(- 2) * ((1 - sqrt (1 + 8 * c)) / 4) ^ 2 + 1 * ((1 - sqrt (1 + 8 * c)) / 4) + c = 0"
    and "(- 2) * ((1 + sqrt (1 + 8 * c)) / 4) ^ 2 + 1 * ((1 + sqrt (1 + 8 * c)) / 4) + c = 0"
proof -
  have s: "sqrt (1 + 8 * c) * sqrt (1 + 8 * c) = 1 + 8 * c"
    using D by simp
  show "(- 2) * ((1 - sqrt (1 + 8 * c)) / 4) ^ 2 + 1 * ((1 - sqrt (1 + 8 * c)) / 4) + c = 0"
    using s by (simp add: power2_eq_square field_simps)
  show "(- 2) * ((1 + sqrt (1 + 8 * c)) / 4) ^ 2 + 1 * ((1 + sqrt (1 + 8 * c)) / 4) + c = 0"
    using s by (simp add: power2_eq_square field_simps)
qed

text \<open>
  C6. When the quadratic has two real roots (positive discriminant), the phase shift the
  solver returns is a root, another root lies strictly above it, and no real root lies
  below it: the solver selects the smaller root.
\<close>

theorem solver_selects_smaller_root:
  assumes "n \<noteq> 0" "V1 \<noteq> 0" "V2 \<noteq> 0" and "0 < discriminant pw fsw L n V1 V2"
  shows "\<exists>phi. solve_phase_shift pw fsw L n V1 V2 = Inr phi \<and>
           (- 2) * phi ^ 2 + 1 * phi + quadratic_c pw fsw L n V1 V2 = 0 \<and>
           (\<exists>r. phi < r \<and> (- 2) * r ^ 2 + 1 * r + quadratic_c pw fsw L n V1 V2 = 0) \<and>
           (\<forall>r. (- 2) * r ^ 2 + 1 * r + quadratic_c pw fsw L n V1 V2 = 0 \<longrightarrow> phi \<le> r)"
proof -
  let ?c = "quadratic_c pw fsw L n V1 V2"
  let ?s = "sqrt (1 + 8 * ?c)"
  have D: "0 < 1 + 8 * ?c"
    using assms(4) by (simp add: discriminant_eq)
  then have D0: "0 \<le> 1 + 8 * ?c" by simp
  have spos: "0 < ?s" using D by simp
  have "solve_phase_shift pw fsw L n V1 V2 = Inr ((1 - ?s) / 4)"
    using solve_phase_shift_real [of n V1 V2 pw fsw L] assms by (simp add: discriminant_eq)
  moreover have "(- 2) * ((1 - ?s) / 4) ^ 2 + 1 * ((1 - ?s) / 4) + ?c = 0"
    using D0 by (rule quadratic_roots(1))
  moreover have "(1 - ?s) / 4 < (1 + ?s) / 4 \<and>
      (- 2) * ((1 + ?s) / 4) ^ 2 + 1 * ((1 + ?s) / 4) + ?c = 0"
    using spos quadratic_roots(2) [OF D0] by simp
  moreover have "\<forall>r. (- 2) * r ^ 2 + 1 * r + ?c = 0 \<longrightarrow> (1 - ?s) / 4 \<le> r"
    using quadratic_root_ge [OF D0] by blast
  ultimately show ?thesis by blast
qed

theorem solver_selects_smaller_root_witness:
  "0 < discriminant 3 1 (1 / 32) 1 1 1 \<and>
   (\<exists>phi. solve_phase_shift 3 1 (1 / 32) 1 1 1 = Inr phi \<and>
           (- 2) * phi ^ 2 + 1 * phi + quadratic_c 3 1 (1 / 32) 1 1 1 = 0 \<and>
           (\<exists>r. phi < r \<and> (- 2) * r ^ 2 + 1 * r + quadratic_c 3 1 (1 / 32) 1 1 1 = 0) \<and>
           (\<forall>r. (- 2) * r ^ 2 + 1 * r + quadratic_c 3 1 (1 / 32) 1 1 1 = 0 \<longrightarrow> phi \<le> r))"
proof -
  have h: "0 < discriminant 3 1 (1 / 32) 1 1 1"
    by (simp add: discriminant_def quadratic_c_def)
  show ?thesis
    using h solver_selects_smaller_root [of 1 1 1 3 1 "1 / 32"] by simp
qed

text \<open>
  C2, as stated, fails: at \<open>P = fsw = L = n = V1 = V2 = 1\<close> the discriminant is \<open>-7\<close>
  and the solver returns the value \<open>1/4\<close>, not an error.
\<close>

theorem negative_discriminant_no_error:
  "discriminant 1 1 1 1 1 1 < 0 \<and> solve_phase_shift 1 1 1 1 1 1 = Inr (1 / 4)"
proof -
  have h: "discriminant 1 1 1 1 1 1 < 0"
    by (simp add: discriminant_def quadratic_c_def)
  then show ?thesis
    using solve_phase_shift_complex [of 1 1 1 1 1 1] by simp
qed

text \<open>
  C2, amended. When the discriminant is negative the solver reports no error: for
  non-zero \<open>n\<close>, \<open>V1\<close>, \<open>V2\<close> it returns a phase shift, which is the real part
  shared by the two non-real roots.
\<close>

theorem negative_discriminant_takes_real_part:
  assumes "n \<noteq> 0" "V1 \<noteq> 0" "V2 \<noteq> 0" and "discriminant pw fsw L n V1 V2 < 0"
  shows "\<exists>phi. solve_phase_shift pw fsw L n V1 V2 = Inr phi \<and>
           (\<forall>r \<in> set (np_roots (- 2) 1 (quadratic_c pw fsw L n V1 V2)).
              Im r \<noteq> 0 \<and> Re r = phi)"
proof -
  let ?c = "quadratic_c pw fsw L n V1 V2"
  have D: "1 + 8 * ?c < 0"
    using assms(4) by (simp add: discriminant_eq)
  have "solve_phase_shift pw fsw L n V1 V2 = Inr (1 / 4)"
    using assms by (rule solve_phase_shift_complex)
  moreover have "\<forall>r \<in> set (np_roots (- 2) 1 ?c). Im r \<noteq> 0 \<and> Re r = 1 / 4"
    using D by (simp add: np_roots_complex)
  ultimately show ?thesis by blast
qed

theorem negative_discriminant_takes_real_part_witness:
  "discriminant 1 1 1 1 1 1 < 0 \<and>
   (\<exists>phi. solve_phase_shift 1 1 1 1 1 1 = Inr phi \<and>
           (\<forall>r \<in> set (np_roots (- 2) 1 (quadratic_c 1 1 1 1 1 1)).
              Im r \<noteq> 0 \<and> Re r = phi))"
proof -
  have h: "discriminant 1 1 1 1 1 1 < 0"
    by (simp add: discriminant_def quadratic_c_def)
  show ?thesis
    using h negative_discriminant_takes_real_part [of 1 1 1 1 1 1] by simp
qed

section \<open>Properties of the resolution step and of the sweeps\<close>

lemma resolution_step_closed_form:
  assumes "fsw \<noteq> 0" "L \<noteq> 0"
  shows "resolution_step n V1 V2 phi d fsw L =
           n * V1 * V2 * d * (1 - 4 * phi + 2 * d) / fsw / L"
  unfolding resolution_step_def using assms by (simp add: field_simps)

lemma full_power_resolution_total:
  assumes "fsw \<noteq> 0" "L \<noteq> 0"
  shows "\<exists>r. full_power_resolution n V1 V2 phi d fsw L = Inr r"
  using assms by (simp add: full_power_resolution_def power_transfer_def)

lemma Irms_prim_phaseShift_total:
  assumes "fsw \<noteq> 0" "L \<noteq> 0"
  shows "\<exists>i. Irms_prim_phaseShift phi V1 V2 n fsw L = Inr i"
  using assms by (simp add: Irms_prim_phaseShift_def Let_def)

lemma solve_phase_shift_total:
  assumes "n \<noteq> 0" "V1 \<noteq> 0" "V2 \<noteq> 0"
  shows "\<exists>phi. solve_phase_shift pw fsw L n V1 V2 = Inr phi"
  using assms by (simp add: solve_phase_shift_def Let_def)

lemma resolution_point_Inr:
  assumes "resolution_point pw L fsw n V1 V2 d = Inr s"
  shows "rs_L s = L"
    and "solve_phase_shift pw fsw L n V1 V2 = Inr (rs_phi s)"
    and "rs_resolution s = resolution_step n V1 V2 (rs_phi s) d fsw L"
    and "Irms_prim_phaseShift (rs_phi s) V1 V2 n fsw L = Inr (rs_I_pri_RMS s)"
    and "rs_I_sec_RMS s = secondary_rms (rs_I_pri_RMS s) n"
  using assms
  by (auto simp: resolution_point_def Let_def split: sum.splits)

lemma Irms_prim_phaseShift_divisors:
  assumes "Irms_prim_phaseShift phi V1 V2 n fsw L = Inr i"
  shows "fsw \<noteq> 0 \<and> L \<noteq> 0"
  using assms by (auto simp: Irms_prim_phaseShift_def Let_def split: if_splits)

lemma resolution_point_divisors:
  assumes "resolution_point pw L fsw n V1 V2 d = Inr s"
  shows "fsw \<noteq> 0 \<and> L \<noteq> 0"
  using resolution_point_Inr(4) [OF assms] by (rule Irms_prim_phaseShift_divisors)

lemma resolution_point_total:
  assumes "n \<noteq> 0" "V1 \<noteq> 0" "V2 \<noteq> 0" "fsw \<noteq> 0" "L \<noteq> 0"
  shows "\<exists>s. resolution_point pw L fsw n V1 V2 d = Inr s"
proof -
  obtain phi where "solve_phase_shift pw fsw L n V1 V2 = Inr phi"
    using solve_phase_shift_total assms by blast
  moreover obtain i where "Irms_prim_phaseShift phi V1 V2 n fsw L = Inr i"
    using Irms_prim_phaseShift_total assms by blast
  ultimately show ?thesis
    by (simp add: resolution_point_def Let_def)
qed




text \<open>
  C5. For positive inputs the closed-form upper bound \<open>Lmax\<close> is the inductance at which
  the power-transfer equation at \<open>phi = 1/4\<close> delivers the rated power, and the only one.
\<close>

theorem upper_bound_matches_power_equation:
  assumes "0 < P" "0 < V1" "0 < V2" "0 < n" "0 < fsw"
  shows "\<exists>Lmax. power_upper_bound n V1 V2 P fsw = Inr Lmax \<and>
           power_transfer n V1 V2 (1 / 4) fsw Lmax = Inr P \<and>
           (\<forall>L. power_transfer n V1 V2 (1 / 4) fsw L = Inr P \<longrightarrow> L = Lmax)"
proof -
  let ?Lmax = "(n * V1 * V2 * (1 / 4) * (1 - 2 * phi_max)) / (P * fsw)"
  have Lmax: "?Lmax = n * V1 * V2 / (8 * P * fsw)"
    by (simp add: phi_max_def)
  have pos: "0 < ?Lmax"
    unfolding Lmax using assms by simp
  have "power_upper_bound n V1 V2 P fsw = Inr ?Lmax"
    using assms by (simp add: power_upper_bound_def)
  moreover have "power_transfer n V1 V2 (1 / 4) fsw ?Lmax = Inr P"
    using assms pos unfolding Lmax by (simp add: power_transfer_def field_simps)
  moreover have "\<forall>L. power_transfer n V1 V2 (1 / 4) fsw L = Inr P \<longrightarrow> L = ?Lmax"
  proof (intro allI impI)
    fix L assume "power_transfer n V1 V2 (1 / 4) fsw L = Inr P"
    then have "L \<noteq> 0" and "n * V1 * V2 * (1 / 4) * (1 - 2 * (1 / 4)) / fsw / L = P"
      by (auto simp: power_transfer_def split: if_splits)
    then show "L = ?Lmax"
      unfolding Lmax using assms by (simp add: field_simps)
  qed
  ultimately show ?thesis by blast
qed

theorem upper_bound_matches_power_equation_witness:
  "\<exists>Lmax. power_upper_bound 15 720 40 1000 100000 = Inr Lmax \<and>
           power_transfer 15 720 40 (1 / 4) 100000 Lmax = Inr 1000 \<and>
           (\<forall>L. power_transfer 15 720 40 (1 / 4) 100000 L = Inr 1000 \<longrightarrow> L = Lmax)"
  using upper_bound_matches_power_equation [of 1000 720 40 15 100000] by simp

lemma one_minus_four_phi:
  assumes "n \<noteq> 0" "V1 \<noteq> 0" "V2 \<noteq> 0"
    and "solve_phase_shift pw fsw L n V1 V2 = Inr phi"
  shows "1 - 4 * phi = sqrt (max 0 (discriminant pw fsw L n V1 V2))"
proof (cases "0 \<le> discriminant pw fsw L n V1 V2")
  case True
  then have "phi = (1 - sqrt (discriminant pw fsw L n V1 V2)) / 4"
    using solve_phase_shift_real [of n V1 V2 pw fsw L] assms by simp
  then show ?thesis using True by (simp add: max_def)
next
  case False
  then have "phi = 1 / 4"
    using solve_phase_shift_complex [of n V1 V2 pw fsw L] assms by simp
  then show ?thesis using False by (simp add: max_def)
qed

lemma discriminant_linear:
  "discriminant pw fsw L n V1 V2 = 1 - 8 * (pw * fsw / (n * V1 * V2) * L)"
  by (simp add: discriminant_eq quadratic_c_def)

lemma discriminant_antitone:
  assumes "0 \<le> pw" "0 < fsw" "0 < n" "0 < V1" "0 < V2" "L1 \<le> L2"
  shows "discriminant pw fsw L2 n V1 V2 \<le> discriminant pw fsw L1 n V1 V2"
proof -
  have "0 \<le> pw * fsw / (n * V1 * V2)"
    using assms by simp
  then have "pw * fsw / (n * V1 * V2) * L1 \<le> pw * fsw / (n * V1 * V2) * L2"
    using assms(6) by (rule mult_left_mono [rotated])
  then show ?thesis
    unfolding discriminant_linear by linarith
qed

lemma discriminant_le_one:
  assumes "0 \<le> pw" "0 < fsw" "0 < n" "0 < V1" "0 < V2" "0 \<le> L"
  shows "discriminant pw fsw L n V1 V2 \<le> 1"
proof -
  have "0 \<le> pw * fsw * L / n / V1 / V2"
    using assms by simp
  then show ?thesis
    by (simp add: discriminant_eq quadratic_c_def)
qed

lemma resolution_at:
  assumes "0 < fsw" "0 < n" "0 < V1" "0 < V2" "0 < L"
    and "solve_phase_shift pw fsw L n V1 V2 = Inr phi"
  shows "resolution_step n V1 V2 phi d fsw L =
           n * V1 * V2 * d / fsw *
             ((sqrt (max 0 (discriminant pw fsw L n V1 V2)) + 2 * d) / L)"
proof -
  have g: "1 - 4 * phi = sqrt (max 0 (discriminant pw fsw L n V1 V2))"
    using one_minus_four_phi [OF _ _ _ assms(6)] assms by simp
  have "resolution_step n V1 V2 phi d fsw L =
          n * V1 * V2 * d * (1 - 4 * phi + 2 * d) / fsw / L"
    using assms by (intro resolution_step_closed_form) auto
  then show ?thesis
    unfolding g by simp
qed

lemma resolution_point_value:
  assumes "0 < fsw" "0 < n" "0 < V1" "0 < V2" "0 < L"
    and "resolution_point pw L fsw n V1 V2 d = Inr s"
  shows "rs_resolution s =
           n * V1 * V2 * d / fsw * ((sqrt (max 0 (discriminant pw fsw L n V1 V2)) + 2 * d) / L)"
  using resolution_at [OF assms(1-5) resolution_point_Inr(2) [OF assms(6)]]
    resolution_point_Inr(3) [OF assms(6)]
  by simp

text \<open>
  C4. For fixed positive \<open>P\<close>, \<open>V1\<close>, \<open>V2\<close>, \<open>n\<close>, \<open>fsw\<close>, \<open>f_clk\<close>, the resolution
  step of a sweep iteration, with the phase shift solved again at each inductance, does
  not increase when the inductance increases.
\<close>

theorem resolution_step_antitone:
  assumes "0 < P" "0 < V1" "0 < V2" "0 < n" "0 < fsw" "0 < f_clk"
    and "0 < L1" "L1 \<le> L2"
  shows "\<exists>s1 s2. resolution_point P L1 fsw n V1 V2 (1 / f_clk / (1 / fsw)) = Inr s1 \<and>
                 resolution_point P L2 fsw n V1 V2 (1 / f_clk / (1 / fsw)) = Inr s2 \<and>
                 rs_resolution s2 \<le> rs_resolution s1"
proof -
  let ?d = "1 / f_clk / (1 / fsw)"
  let ?g1 = "sqrt (max 0 (discriminant P fsw L1 n V1 V2))"
  let ?g2 = "sqrt (max 0 (discriminant P fsw L2 n V1 V2))"
  have d: "0 < ?d" using assms by simp
  have L2: "0 < L2" using assms by simp
  obtain s1 where s1: "resolution_point P L1 fsw n V1 V2 ?d = Inr s1"
    using resolution_point_total [of n V1 V2 fsw L1 P ?d] assms by auto
  obtain s2 where s2: "resolution_point P L2 fsw n V1 V2 ?d = Inr s2"
    using resolution_point_total [of n V1 V2 fsw L2 P ?d] assms L2 by auto
  have v1: "rs_resolution s1 = n * V1 * V2 * ?d / fsw * ((?g1 + 2 * ?d) / L1)"
    using assms s1 by (intro resolution_point_value) auto
  have v2: "rs_resolution s2 = n * V1 * V2 * ?d / fsw * ((?g2 + 2 * ?d) / L2)"
    using assms L2 s2 by (intro resolution_point_value) auto
  have "discriminant P fsw L2 n V1 V2 \<le> discriminant P fsw L1 n V1 V2"
    using assms by (intro discriminant_antitone) auto
  then have g: "?g2 \<le> ?g1" by simp
  have g2: "0 \<le> ?g2" by simp
  have "(?g2 + 2 * ?d) / L2 \<le> (?g1 + 2 * ?d) / L1"
    using g g2 d assms(7,8) by (intro frac_le) auto
  moreover have "0 \<le> n * V1 * V2 * ?d / fsw"
    using assms d by simp
  ultimately have "rs_resolution s2 \<le> rs_resolution s1"
    unfolding v1 v2 by (rule mult_left_mono)
  with s1 s2 show ?thesis by blast
qed

theorem resolution_step_antitone_witness:
  "\<exists>s1 s2. resolution_point 1000 (1 / 10 ^ 4) 100000 15 720 40 (1 / 250000000 / (1 / 100000)) = Inr s1 \<and>
           resolution_point 1000 (2 / 10 ^ 4) 100000 15 720 40 (1 / 250000000 / (1 / 100000)) = Inr s2 \<and>
           rs_resolution s2 \<le> rs_resolution s1"
  using resolution_step_antitone [of 1000 720 40 15 100000 250000000 "1 / 10 ^ 4" "2 / 10 ^ 4"]
  by simp

section \<open>The lower-bound search in exact arithmetic\<close>

text \<open>
  With exact products the candidate inductance grows without bound, and the search
  leaves its loop for positive parameters. A double does not always grow: on a
  subnormal \<^verbatim>\<open>Lmin\<close> the product \<^verbatim>\<open>Lmin * 1.0001\<close> rounds back to \<^verbatim>\<open>Lmin\<close>.
\<close>

lemma resolution_bound:
  assumes "0 \<le> pw" "0 < fsw" "0 < n" "0 < V1" "0 < V2" "0 < L" "0 < d"
    and "solve_phase_shift pw fsw L n V1 V2 = Inr phi"
  shows "resolution_step n V1 V2 phi d fsw L \<le> n * V1 * V2 * d / fsw * (1 + 2 * d) / L"
proof -
  let ?g = "sqrt (max 0 (discriminant pw fsw L n V1 V2))"
  have m: "resolution_step n V1 V2 phi d fsw L = n * V1 * V2 * d / fsw * ((?g + 2 * d) / L)"
    using assms by (intro resolution_at) auto
  have "discriminant pw fsw L n V1 V2 \<le> 1"
    using assms by (intro discriminant_le_one) auto
  then have "max 0 (discriminant pw fsw L n V1 V2) \<le> 1" by simp
  then have "?g \<le> 1"
    using real_sqrt_le_iff [of "max 0 (discriminant pw fsw L n V1 V2)" 1] by simp
  then have "(?g + 2 * d) / L \<le> (1 + 2 * d) / L"
    using assms(6) by (simp add: divide_right_mono)
  moreover have "0 \<le> n * V1 * V2 * d / fsw"
    using assms by simp
  ultimately have "n * V1 * V2 * d / fsw * ((?g + 2 * d) / L)
                   \<le> n * V1 * V2 * d / fsw * ((1 + 2 * d) / L)"
    by (rule mult_left_mono)
  then show ?thesis unfolding m by simp
qed

lemma divide_le_swap:
  fixes A L thr :: real
  assumes "0 < L" "0 < thr" "A / thr \<le> L"
  shows "A / L \<le> thr"
proof -
  have "A \<le> L * thr"
    using assms(2,3) by (simp add: pos_divide_le_eq)
  then show ?thesis
    using assms(1) by (simp add: pos_divide_le_eq mult.commute)
qed

lemma lmin_loop_exit:
  assumes "\<not> m > thr"
  shows "lmin_loop thr pw fsw n V1 V2 d L phi m rl = Some (Inr (L, phi, m, rl))"
  using assms by (subst lmin_loop.simps) simp

lemma lmin_loop_step:
  assumes "m > thr"
    and "solve_phase_shift pw fsw (L * (10001 / 10000)) n V1 V2 = Inr phi'"
  shows "lmin_loop thr pw fsw n V1 V2 d L phi m rl =
         lmin_loop thr pw fsw n V1 V2 d (L * (10001 / 10000)) phi'
           (resolution_step n V1 V2 phi' d fsw (L * (10001 / 10000))) True"
  using assms by (subst lmin_loop.simps) (simp add: Let_def)

lemma lmin_loop_terminates:
  assumes pos: "0 \<le> pw" "0 < fsw" "0 < n" "0 < V1" "0 < V2" "0 < d" "0 < thr"
  shows "0 < L \<Longrightarrow>
         n * V1 * V2 * d / fsw * (1 + 2 * d) / thr \<le> L * (10001 / 10000) ^ k \<Longrightarrow>
         solve_phase_shift pw fsw L n V1 V2 = Inr phi \<Longrightarrow>
         m = resolution_step n V1 V2 phi d fsw L \<Longrightarrow>
         \<exists>L' phi' m' rl'.
           lmin_loop thr pw fsw n V1 V2 d L phi m rl = Some (Inr (L', phi', m', rl')) \<and>
           L \<le> L' \<and> m' \<le> thr \<and>
           solve_phase_shift pw fsw L' n V1 V2 = Inr phi' \<and>
           m' = resolution_step n V1 V2 phi' d fsw L'"
proof (induction k arbitrary: L phi m rl)
  case 0
  have "m \<le> n * V1 * V2 * d / fsw * (1 + 2 * d) / L"
    unfolding "0.prems"(4)
    using pos "0.prems"(1,3) by (intro resolution_bound [of pw fsw n V1 V2 L d phi]) auto
  also have "\<dots> \<le> thr"
  proof (rule divide_le_swap)
    show "0 < L" by (rule "0.prems"(1))
    show "0 < thr" by (rule pos(7))
    show "n * V1 * V2 * d / fsw * (1 + 2 * d) / thr \<le> L"
      using "0.prems"(2) by simp
  qed
  finally have "\<not> m > thr" by simp
  then have "lmin_loop thr pw fsw n V1 V2 d L phi m rl = Some (Inr (L, phi, m, rl))"
    by (rule lmin_loop_exit)
  moreover have "m \<le> thr" using \<open>\<not> m > thr\<close> by simp
  ultimately show ?case
    using "0.prems"(3,4) by blast
next
  case (Suc k)
  show ?case
  proof (cases "m > thr")
    case False
    then have "lmin_loop thr pw fsw n V1 V2 d L phi m rl = Some (Inr (L, phi, m, rl))"
      by (rule lmin_loop_exit)
    moreover have "m \<le> thr" using False by simp
    ultimately show ?thesis
      using Suc.prems(3,4) by blast
  next
    case True
    let ?L = "L * (10001 / 10000)"
    have Lpos: "0 < ?L" using Suc.prems(1) by simp
    obtain phi1 where phi1: "solve_phase_shift pw fsw ?L n V1 V2 = Inr phi1"
      using solve_phase_shift_total [of n V1 V2 pw fsw ?L] pos by auto
    have bound: "n * V1 * V2 * d / fsw * (1 + 2 * d) / thr \<le> ?L * (10001 / 10000) ^ k"
      using Suc.prems(2) by (simp add: mult.assoc)
    obtain L' phi' m' rl' where
      res: "lmin_loop thr pw fsw n V1 V2 d ?L phi1 (resolution_step n V1 V2 phi1 d fsw ?L) True
              = Some (Inr (L', phi', m', rl'))"
      and props: "?L \<le> L'" "m' \<le> thr"
        "solve_phase_shift pw fsw L' n V1 V2 = Inr phi'"
        "m' = resolution_step n V1 V2 phi' d fsw L'"
      using Suc.IH [OF Lpos bound phi1 refl, of True] by blast
    have "lmin_loop thr pw fsw n V1 V2 d L phi m rl = Some (Inr (L', phi', m', rl'))"
      using lmin_loop_step [OF True phi1] res by simp
    moreover have "L \<le> L'"
      using props(1) Suc.prems(1) by simp
    ultimately show ?thesis
      using props by blast
  qed
qed

lemma Coss_pri_pos: "0 < Coss_pri"
  by (simp add: Coss_pri_def)

lemma zvs_lower_bound_pos:
  assumes "0 < P_min" "0 < V1" "0 < V2" "0 < n" "0 < Ts"
  shows "\<exists>L0. zvs_lower_bound P_min V1 V2 n Ts = Inr L0 \<and> 0 < L0"
proof -
  let ?den = "(1 / n) * (P_min / V2) * Ts + 8 * Coss_pri * V1"
  have "0 < (1 / n) * (P_min / V2) * Ts"
    using assms by simp
  moreover have "0 < 8 * Coss_pri * V1"
    using assms Coss_pri_pos by simp
  ultimately have den: "0 < ?den" by (rule add_pos_pos)
  have "0 < 2 * Ts * V1 / ?den"
    using den assms by simp
  then have "0 < (2 * Ts * V1 / ?den) ^ 2"
    by (rule zero_less_power)
  then have "0 < Coss_pri * (2 * Ts * V1 / ?den) ^ 2"
    using Coss_pri_pos by (rule mult_pos_pos [rotated])
  moreover have "zvs_lower_bound P_min V1 V2 n Ts = Inr (Coss_pri * (2 * Ts * V1 / ?den) ^ 2)"
  proof -
    have ne: "V2 \<noteq> 0" "n \<noteq> 0" "?den \<noteq> 0"
      using den assms by simp_all
    show ?thesis
      unfolding zvs_lower_bound_def Let_def by (simp only: ne if_False)
  qed
  ultimately show ?thesis by blast
qed

lemma lower_bound_search_divisors:
  assumes "zvs_lower_bound P_min V1 V2 n Ts = Inr L"
    and "solve_phase_shift pw fsw L n V1 V2 = Inr phi"
    and "Ts \<noteq> 0"
  shows "L \<noteq> 0 \<and> L * (10001 / 10000) \<noteq> 0"
proof -
  let ?den = "(1 / n) * (P_min / V2) * Ts + 8 * Coss_pri * V1"
  have V1: "V1 \<noteq> 0"
    using assms(2) by (auto simp: solve_phase_shift_def split: if_splits)
  have den: "?den \<noteq> 0" and L: "L = Coss_pri * (2 * Ts * V1 / ?den) ^ 2"
    using assms(1) by (auto simp: zvs_lower_bound_def Let_def split: if_splits)
  have "2 * Ts * V1 / ?den \<noteq> 0"
    using V1 den assms(3) by simp
  then have "L \<noteq> 0"
    unfolding L using Coss_pri_pos by simp
  then show ?thesis by simp
qed

lemma geometric_growth_reaches:
  fixes B L :: real
  assumes "0 < L"
  shows "\<exists>k. B \<le> L * (10001 / 10000) ^ k"
proof -
  obtain k where "B / L < (10001 / 10000) ^ k"
    using real_arch_pow [of "10001 / 10000" "B / L"] by auto
  then have "B < L * (10001 / 10000) ^ k"
    using assms by (simp add: pos_divide_less_eq mult.commute)
  then show ?thesis by (auto intro: less_imp_le)
qed

lemma lower_bound_search_result:
  assumes "0 < P_min" "0 < V1" "0 < V2" "0 < n" "0 < fsw" "0 < Ts" "0 < d" "0 < thr"
  shows "\<exists>L0 Lmin phi m rl.
           zvs_lower_bound P_min V1 V2 n Ts = Inr L0 \<and> 0 < L0 \<and> L0 \<le> Lmin \<and>
           lower_bound_search thr P_min fsw n V1 V2 Ts d = Some (Inr (Lmin, phi, m, rl)) \<and>
           m \<le> thr \<and>
           solve_phase_shift P_min fsw Lmin n V1 V2 = Inr phi \<and>
           m = resolution_step n V1 V2 phi d fsw Lmin"
proof -
  obtain L0 where L0: "zvs_lower_bound P_min V1 V2 n Ts = Inr L0" and L0pos: "0 < L0"
    using zvs_lower_bound_pos [of P_min V1 V2 n Ts] assms by auto
  obtain phi0 where phi0: "solve_phase_shift P_min fsw L0 n V1 V2 = Inr phi0"
    using solve_phase_shift_total [of n V1 V2 P_min fsw L0] assms by auto
  obtain k where k: "n * V1 * V2 * d / fsw * (1 + 2 * d) / thr \<le> L0 * (10001 / 10000) ^ k"
    using geometric_growth_reaches [OF L0pos] by blast
  have pw: "0 \<le> P_min" using assms(1) by simp
  obtain Lmin phi m rl where
    loop: "lmin_loop thr P_min fsw n V1 V2 d L0 phi0 (resolution_step n V1 V2 phi0 d fsw L0) False
             = Some (Inr (Lmin, phi, m, rl))"
    and props: "L0 \<le> Lmin" "m \<le> thr"
      "solve_phase_shift P_min fsw Lmin n V1 V2 = Inr phi"
      "m = resolution_step n V1 V2 phi d fsw Lmin"
    using lmin_loop_terminates [OF pw assms(5,4,2,3,7,8) L0pos k phi0 refl, of False] by blast
  have "lower_bound_search thr P_min fsw n V1 V2 Ts d = Some (Inr (Lmin, phi, m, rl))"
    using L0 phi0 loop by (simp add: lower_bound_search_def)
  then show ?thesis
    using L0 L0pos props by blast
qed

section \<open>Properties of the sweeps and of the sizing routine\<close>

lemma ploss_vs_resolution_loop_total:
  "n \<noteq> 0 \<Longrightarrow> V1 \<noteq> 0 \<Longrightarrow> V2 \<noteq> 0 \<Longrightarrow> fsw \<noteq> 0 \<Longrightarrow> 0 < L \<Longrightarrow>
   \<exists>ss. ploss_vs_resolution_loop L Lmax pw fsw n V1 V2 d = Inr ss"
proof (induction L Lmax pw fsw n V1 V2 d rule: ploss_vs_resolution_loop.induct)
  case (1 L Lmax pw fsw n V1 V2 d)
  show ?case
  proof (cases "L \<le> Lmax")
    case False
    then show ?thesis
      by (subst ploss_vs_resolution_loop.simps) simp
  next
    case True
    obtain s where s: "resolution_point pw L fsw n V1 V2 d = Inr s"
      using resolution_point_total [of n V1 V2 fsw L pw d] "1.prems" by auto
    have "0 < L + 1 / 10 ^ 6"
      using "1.prems" by simp
    then obtain ss where
      "ploss_vs_resolution_loop (L + 1 / 10 ^ 6) Lmax pw fsw n V1 V2 d = Inr ss"
      using "1.IH" [OF True s] "1.prems" by blast
    then show ?thesis
      using True s by (subst ploss_vs_resolution_loop.simps) simp
  qed
qed

lemma ploss_vs_resolution_loop_samples:
  "ploss_vs_resolution_loop L Lmax pw fsw n V1 V2 d = Inr ss \<Longrightarrow> s \<in> set ss \<Longrightarrow>
   \<exists>L'. L \<le> L' \<and> L' \<le> Lmax \<and> resolution_point pw L' fsw n V1 V2 d = Inr s"
proof (induction L Lmax pw fsw n V1 V2 d arbitrary: ss rule: ploss_vs_resolution_loop.induct)
  case (1 L Lmax pw fsw n V1 V2 d)
  show ?case
  proof (cases "L \<le> Lmax")
    case False
    then have "ss = []"
      using "1.prems"(1) by (subst (asm) ploss_vs_resolution_loop.simps) simp
    then show ?thesis using "1.prems"(2) by simp
  next
    case True
    from "1.prems"(1) True obtain s0 ss0 where
      s0: "resolution_point pw L fsw n V1 V2 d = Inr s0"
      and ss0: "ploss_vs_resolution_loop (L + 1 / 10 ^ 6) Lmax pw fsw n V1 V2 d = Inr ss0"
      and ss: "ss = s0 # ss0"
      by (subst (asm) ploss_vs_resolution_loop.simps) (auto split: sum.splits)
    show ?thesis
    proof (cases "s = s0")
      case True
      then show ?thesis using s0 \<open>L \<le> Lmax\<close> by auto
    next
      case False
      then have "s \<in> set ss0" using "1.prems"(2) ss by simp
      then obtain L' where "L + 1 / 10 ^ 6 \<le> L'" "L' \<le> Lmax"
        "resolution_point pw L' fsw n V1 V2 d = Inr s"
        using "1.IH" [OF True s0 ss0] by blast
      moreover have "L \<le> L + 1 / 10 ^ 6" by simp
      ultimately show ?thesis
        by (meson order_trans)
    qed
  qed
qed

lemma power_point_total:
  assumes "n \<noteq> 0" "V1 \<noteq> 0" "V2 \<noteq> 0" "fsw \<noteq> 0" "Ltot \<noteq> 0"
  shows "\<exists>s. power_point P Ltot fsw n V1 V2 = Inr s"
proof -
  obtain phi where "solve_phase_shift (of_int P) fsw Ltot n V1 V2 = Inr phi"
    using solve_phase_shift_total assms by blast
  moreover obtain i where "Irms_prim_phaseShift phi V1 V2 n fsw Ltot = Inr i"
    using Irms_prim_phaseShift_total assms by blast
  ultimately show ?thesis
    by (simp add: power_point_def Let_def)
qed

lemma ploss_vs_P_loop_total:
  assumes "n \<noteq> 0" "V1 \<noteq> 0" "V2 \<noteq> 0" "fsw \<noteq> 0" "Ltot \<noteq> 0"
  shows "\<exists>ss. ploss_vs_P_loop Ps Ltot fsw n V1 V2 = Inr ss"
proof (induction Ps)
  case Nil
  show ?case by simp
next
  case (Cons P Ps)
  obtain s where "power_point P Ltot fsw n V1 V2 = Inr s"
    using power_point_total assms by blast
  then show ?case
    using Cons.IH by auto
qed

lemma feasibility_report_Inr:
  assumes "feasibility_report P P_min Lmin Lmax fsw n V1 V2 Ts d = Inr (warned, fig1, fig2)"
  shows "warned = (Lmax < Lmin)"
    and "Lmax < Lmin \<Longrightarrow> fig1 = None \<and> fig2 = None"
    and "\<not> Lmax < Lmin \<Longrightarrow>
           (\<exists>ss. ploss_vs_resolution P Lmin Lmax fsw n V1 V2 Ts d = Inr ss \<and> fig1 = Some ss) \<and>
           (\<exists>ss. ploss_vs_resolution P_min Lmin Lmax fsw n V1 V2 Ts d = Inr ss \<and> fig2 = Some ss)"
  using assms
  by (auto simp: feasibility_report_def split: if_splits sum.splits)

lemma feasibility_report_total:
  assumes "n \<noteq> 0" "V1 \<noteq> 0" "V2 \<noteq> 0" "fsw \<noteq> 0" "0 < Lmin"
  shows "\<exists>r. feasibility_report P P_min Lmin Lmax fsw n V1 V2 Ts d = Inr r"
proof -
  obtain ss1 where "ploss_vs_resolution P Lmin Lmax fsw n V1 V2 Ts d = Inr ss1"
    using ploss_vs_resolution_loop_total [OF assms(1-4) assms(5), of Lmax P d]
    by (auto simp: ploss_vs_resolution_def)
  moreover obtain ss2 where "ploss_vs_resolution P_min Lmin Lmax fsw n V1 V2 Ts d = Inr ss2"
    using ploss_vs_resolution_loop_total [OF assms(1-4) assms(5), of Lmax P_min d]
    by (auto simp: ploss_vs_resolution_def)
  ultimately show ?thesis
    by (auto simp: feasibility_report_def)
qed

lemma sizing_design_Inr:
  assumes "sizing_design P P_min V1 V2 fsw n d Lmin Lmax Ltot lmt warned fig1 fig2 = Inr out"
  shows "out_Lmin out = Lmin" "out_Lmax out = Lmax" "out_Ltot out = Ltot"
    and "solve_phase_shift P fsw Ltot n V1 V2 = Inr (out_phi out)"
    and "out_resolution out = resolution_step n V1 V2 (out_phi out) d fsw Ltot"
    and "Irms_prim_phaseShift (out_phi out) V1 V2 n fsw Ltot = Inr (out_I_pri_RMS out)"
    and "out_I_sec_RMS out = secondary_rms (out_I_pri_RMS out) n"
    and "out_limiter out = lmt" "out_infeasible_warning out = warned"
    and "out_bounds_warning out = (Ltot < Lmin \<or> Ltot > Lmax)"
    and "out_fig1 out = fig1" "out_fig2 out = fig2"
    and "Lmax < Lmin \<Longrightarrow> out_fig3 out = None"
    and "\<not> Lmax < Lmin \<Longrightarrow>
           \<exists>ss. ploss_vs_P P_min P Ltot fsw n V1 V2 = Inr ss \<and> out_fig3 out = Some ss"
  using assms
  by (cases "ploss_vs_P P_min P Ltot fsw n V1 V2";
      auto simp: sizing_design_def Let_def split: sum.splits if_splits)+

lemma sizing_design_divisors:
  assumes "sizing_design P P_min V1 V2 fsw n d Lmin Lmax Ltot lmt warned fig1 fig2 = Inr out"
  shows "fsw \<noteq> 0 \<and> Ltot \<noteq> 0"
  using sizing_design_Inr(6) [OF assms] by (rule Irms_prim_phaseShift_divisors)

lemma sizing_design_total:
  assumes "n \<noteq> 0" "V1 \<noteq> 0" "V2 \<noteq> 0" "fsw \<noteq> 0" "Ltot \<noteq> 0"
  shows "\<exists>out. sizing_design P P_min V1 V2 fsw n d Lmin Lmax Ltot lmt warned fig1 fig2 = Inr out"
proof -
  obtain phi where phi: "solve_phase_shift P fsw Ltot n V1 V2 = Inr phi"
    using solve_phase_shift_total assms by blast
  obtain i where i: "Irms_prim_phaseShift phi V1 V2 n fsw Ltot = Inr i"
    using Irms_prim_phaseShift_total assms by blast
  obtain ss where ss: "ploss_vs_P P_min P Ltot fsw n V1 V2 = Inr ss"
    using ploss_vs_P_loop_total [OF assms] by (auto simp: ploss_vs_P_def)
  show ?thesis
    using phi i ss assms
    by (simp add: sizing_design_def power_transfer_def Let_def)
qed

lemma sizing_Inr:
  assumes "dab_inductor_sizing_phaseShift args reply = Some (Inr out)"
  obtains Lmin phi m rl Lmax warned fig1 fig2 where
    "lower_bound_search (param_resolution_percentage args * param_P args) (1 / 2 * param_P args)
       (param_fsw args) (param_n args) (param_V1 args) (param_V2 args) (1 / param_fsw args)
       (1 / param_f_clk args / (1 / param_fsw args)) = Some (Inr (Lmin, phi, m, rl))"
    and "power_upper_bound (param_n args) (param_V1 args) (param_V2 args) (param_P args)
       (param_fsw args) = Inr Lmax"
    and "feasibility_report (param_P args) (1 / 2 * param_P args) Lmin Lmax (param_fsw args)
       (param_n args) (param_V1 args) (param_V2 args) (1 / param_fsw args)
       (1 / param_f_clk args / (1 / param_fsw args)) = Inr (warned, fig1, fig2)"
    and "sizing_design (param_P args) (1 / 2 * param_P args) (param_V1 args) (param_V2 args)
       (param_fsw args) (param_n args) (1 / param_f_clk args / (1 / param_fsw args))
       Lmin Lmax (select_Ltot (arg_Ltot args) reply Lmin Lmax)
       (if rl then Resolution_requirement else ZVS_condition_at_minimum_power)
       warned fig1 fig2 = Inr out"
  using assms
  unfolding dab_inductor_sizing_phaseShift_def Let_def
  by (auto split: if_splits option.splits sum.splits prod.splits)


lemma power_upper_bound_pos:
  assumes "0 < P" "0 < V1" "0 < V2" "0 < n" "0 < fsw"
  shows "\<exists>Lmax. power_upper_bound n V1 V2 P fsw = Inr Lmax \<and> 0 < Lmax"
  using assms by (simp add: power_upper_bound_def phi_max_def)

lemma sizing_total:
  assumes pos: "0 < param_P args" "0 < param_V1 args" "0 < param_V2 args" "0 < param_n args"
      "0 < param_fsw args" "0 < param_f_clk args" "0 < param_resolution_percentage args"
    and sel: "\<And>Lmin Lmax. 0 < Lmin \<Longrightarrow> 0 < Lmax \<Longrightarrow>
                select_Ltot (arg_Ltot args) reply Lmin Lmax \<noteq> 0"
  shows "\<exists>out L0. dab_inductor_sizing_phaseShift args reply = Some (Inr out) \<and>
           zvs_lower_bound (1 / 2 * param_P args) (param_V1 args) (param_V2 args) (param_n args)
             (1 / param_fsw args) = Inr L0 \<and>
           0 < L0 \<and> L0 \<le> out_Lmin out \<and> 0 < out_Lmax out"
proof -
  let ?P = "param_P args" and ?V1 = "param_V1 args" and ?V2 = "param_V2 args"
  let ?n = "param_n args" and ?fsw = "param_fsw args"
  let ?Ts = "1 / param_fsw args"
  let ?d = "1 / param_f_clk args / (1 / param_fsw args)"
  let ?thr = "param_resolution_percentage args * param_P args"
  have derived: "0 < 1 / 2 * ?P" "0 < ?Ts" "0 < ?d" "0 < ?thr"
    using pos by simp_all
  obtain L0 Lmin phi m rl where
    L0: "zvs_lower_bound (1 / 2 * ?P) ?V1 ?V2 ?n ?Ts = Inr L0" "0 < L0" "L0 \<le> Lmin"
    and search: "lower_bound_search ?thr (1 / 2 * ?P) ?fsw ?n ?V1 ?V2 ?Ts ?d
                   = Some (Inr (Lmin, phi, m, rl))"
    using lower_bound_search_result [OF derived(1) pos(2,3,4,5) derived(2,3,4)] by blast
  have Lmin: "0 < Lmin" using L0(2,3) by simp
  obtain Lmax where Lmax: "power_upper_bound ?n ?V1 ?V2 ?P ?fsw = Inr Lmax" "0 < Lmax"
    using power_upper_bound_pos [OF pos(1,2,3,4,5)] by blast
  have ne: "?n \<noteq> 0" "?V1 \<noteq> 0" "?V2 \<noteq> 0" "?fsw \<noteq> 0" "param_f_clk args \<noteq> 0" "Lmax \<noteq> 0"
    using pos Lmax(2) by simp_all
  obtain min_deltaP where
    md: "full_power_resolution ?n ?V1 ?V2 phi_max ?d ?fsw Lmax = Inr min_deltaP"
    using full_power_resolution_total [OF ne(4) ne(6)] by blast
  obtain r where "feasibility_report ?P (1 / 2 * ?P) Lmin Lmax ?fsw ?n ?V1 ?V2 ?Ts ?d = Inr r"
    using feasibility_report_total [OF ne(1,2,3,4) Lmin] by blast
  then obtain warned fig1 fig2 where
    fr: "feasibility_report ?P (1 / 2 * ?P) Lmin Lmax ?fsw ?n ?V1 ?V2 ?Ts ?d
           = Inr (warned, fig1, fig2)"
    by (cases r) auto
  have "select_Ltot (arg_Ltot args) reply Lmin Lmax \<noteq> 0"
    using sel Lmin Lmax(2) by blast
  then obtain out where
    out: "sizing_design ?P (1 / 2 * ?P) ?V1 ?V2 ?fsw ?n ?d Lmin Lmax
            (select_Ltot (arg_Ltot args) reply Lmin Lmax)
            (if rl then Resolution_requirement else ZVS_condition_at_minimum_power)
            warned fig1 fig2 = Inr out"
    using sizing_design_total [OF ne(1,2,3,4)] by blast
  have "dab_inductor_sizing_phaseShift args reply = Some (Inr out)"
    unfolding dab_inductor_sizing_phaseShift_def Let_def
    using ne(4,5) search Lmax(1) md fr out by simp
  moreover have "out_Lmin out = Lmin" "out_Lmax out = Lmax"
    using sizing_design_Inr(1,2) [OF out] by simp_all
  ultimately show ?thesis
    using L0 Lmax(2) by auto
qed

lemma select_Ltot_midpoint:
  assumes "reply = EOFError \<or> reply = KeyboardInterrupt \<or> reply = Line None"
  shows "select_Ltot None reply Lmin Lmax = (Lmin + Lmax) / 2"
  using assms by (auto simp: select_Ltot_def)

lemmas param_defs =
  param_P_def param_V1_def param_V2_def param_fsw_def param_f_clk_def param_n_def
  param_resolution_percentage_def

text \<open>
  C3. Whenever a run of the sizing routine returns with \<open>Lmax < Lmin\<close>, it has issued
  the infeasibility warning and has generated none of the three sweeps.
\<close>

theorem infeasible_design_warns_and_skips_sweeps:
  assumes "dab_inductor_sizing_phaseShift args reply = Some (Inr out)"
    and "out_Lmax out < out_Lmin out"
  shows "out_infeasible_warning out \<and>
         out_fig1 out = None \<and> out_fig2 out = None \<and> out_fig3 out = None"
proof -
  from assms(1) obtain Lmin rl Lmax warned fig1 fig2 and phi m :: real where
    fr: "feasibility_report (param_P args) (1 / 2 * param_P args) Lmin Lmax (param_fsw args)
       (param_n args) (param_V1 args) (param_V2 args) (1 / param_fsw args)
       (1 / param_f_clk args / (1 / param_fsw args)) = Inr (warned, fig1, fig2)"
    and sd: "sizing_design (param_P args) (1 / 2 * param_P args) (param_V1 args) (param_V2 args)
       (param_fsw args) (param_n args) (1 / param_f_clk args / (1 / param_fsw args))
       Lmin Lmax (select_Ltot (arg_Ltot args) reply Lmin Lmax)
       (if rl then Resolution_requirement else ZVS_condition_at_minimum_power)
       warned fig1 fig2 = Inr out"
    by (rule sizing_Inr)
  have lt: "Lmax < Lmin"
    using assms(2) sizing_design_Inr(1,2) [OF sd] by simp
  have "warned" "fig1 = None \<and> fig2 = None"
    using feasibility_report_Inr(1,2) [OF fr] lt by simp_all
  moreover have "out_fig3 out = None"
    using sizing_design_Inr(13) [OF sd lt] .
  ultimately show ?thesis
    using sizing_design_Inr(9,11,12) [OF sd] by simp
qed

theorem infeasible_design_warns_and_skips_sweeps_witness:
  "\<exists>out. dab_inductor_sizing_phaseShift
           \<lparr>arg_P = Some (1 / 100), arg_V1 = None, arg_V2 = None, arg_fsw = None,
            arg_f_clk = None, arg_Llk = None, arg_n = None,
            arg_resolution_percentage = None, arg_Ltot = None\<rparr> EOFError = Some (Inr out) \<and>
         out_Lmax out < out_Lmin out \<and>
         out_infeasible_warning out \<and>
         out_fig1 out = None \<and> out_fig2 out = None \<and> out_fig3 out = None"
proof -
  let ?args = "\<lparr>arg_P = Some (1 / 100), arg_V1 = None, arg_V2 = None, arg_fsw = None,
            arg_f_clk = None, arg_Llk = None, arg_n = None,
            arg_resolution_percentage = None, arg_Ltot = None\<rparr>"
  have sel: "\<And>Lmin Lmax. 0 < Lmin \<Longrightarrow> 0 < Lmax \<Longrightarrow>
               select_Ltot (arg_Ltot ?args) EOFError Lmin Lmax \<noteq> 0"
    by (simp add: select_Ltot_def)
  obtain out L0 where
    run: "dab_inductor_sizing_phaseShift ?args EOFError = Some (Inr out)"
    and L0: "zvs_lower_bound (1 / 2 * param_P ?args) (param_V1 ?args) (param_V2 ?args)
               (param_n ?args) (1 / param_fsw ?args) = Inr L0"
    and le: "L0 \<le> out_Lmin out"
    using sizing_total [of ?args EOFError, OF _ _ _ _ _ _ _ sel]
    by (auto simp: param_defs)
  have "54 < L0"
    using L0
    by (simp add: param_defs zvs_lower_bound_def Coss_pri_def Let_def power_divide
          split: if_splits)
  moreover have "out_Lmax out = 54"
  proof -
    from run obtain Lmin rl Lmax warned fig1 fig2 and phi m :: real where
      ub: "power_upper_bound (param_n ?args) (param_V1 ?args) (param_V2 ?args) (param_P ?args)
             (param_fsw ?args) = Inr Lmax"
      and sd: "sizing_design (param_P ?args) (1 / 2 * param_P ?args) (param_V1 ?args)
         (param_V2 ?args) (param_fsw ?args) (param_n ?args)
         (1 / param_f_clk ?args / (1 / param_fsw ?args))
         Lmin Lmax (select_Ltot (arg_Ltot ?args) EOFError Lmin Lmax)
         (if rl then Resolution_requirement else ZVS_condition_at_minimum_power)
         warned fig1 fig2 = Inr out"
      by (rule sizing_Inr)
    have "Lmax = 54"
      using ub by (simp add: param_defs power_upper_bound_def phi_max_def split: if_splits)
    then show ?thesis
      using sizing_design_Inr(2) [OF sd] by simp
  qed
  ultimately have lt: "out_Lmax out < out_Lmin out"
    using le by simp
  show ?thesis
    using run lt infeasible_design_warns_and_skips_sweeps [OF run lt] by blast
qed

text \<open>
  C9. Whenever a run of the sizing routine returns, with no \<open>Ltot\<close> passed and the
  prompt ending in \<^verbatim>\<open>EOFError\<close> or \<^verbatim>\<open>KeyboardInterrupt\<close>, or returning a text that is
  not a number, the inductance it selects is the midpoint of the returned \<open>Lmin\<close> and
  \<open>Lmax\<close>, which are the result of the lower-bound search and the closed-form upper
  bound.
\<close>

theorem midpoint_fallback:
  assumes "dab_inductor_sizing_phaseShift args reply = Some (Inr out)"
    and "arg_Ltot args = None"
    and "reply = EOFError \<or> reply = KeyboardInterrupt \<or> reply = Line None"
  shows "out_Ltot out = (out_Lmin out + out_Lmax out) / 2 \<and>
         (\<exists>phi max_deltaP resolution_limited.
            lower_bound_search (param_resolution_percentage args * param_P args)
              (1 / 2 * param_P args) (param_fsw args) (param_n args) (param_V1 args)
              (param_V2 args) (1 / param_fsw args)
              (1 / param_f_clk args / (1 / param_fsw args))
              = Some (Inr (out_Lmin out, phi, max_deltaP, resolution_limited))) \<and>
         power_upper_bound (param_n args) (param_V1 args) (param_V2 args) (param_P args)
           (param_fsw args) = Inr (out_Lmax out)"
proof -
  from assms(1) obtain Lmin rl Lmax warned fig1 fig2 and phi m :: real where
    lb: "lower_bound_search (param_resolution_percentage args * param_P args)
       (1 / 2 * param_P args) (param_fsw args) (param_n args) (param_V1 args)
       (param_V2 args) (1 / param_fsw args)
       (1 / param_f_clk args / (1 / param_fsw args)) = Some (Inr (Lmin, phi, m, rl))"
    and ub: "power_upper_bound (param_n args) (param_V1 args) (param_V2 args) (param_P args)
       (param_fsw args) = Inr Lmax"
    and sd: "sizing_design (param_P args) (1 / 2 * param_P args) (param_V1 args) (param_V2 args)
       (param_fsw args) (param_n args) (1 / param_f_clk args / (1 / param_fsw args))
       Lmin Lmax (select_Ltot (arg_Ltot args) reply Lmin Lmax)
       (if rl then Resolution_requirement else ZVS_condition_at_minimum_power)
       warned fig1 fig2 = Inr out"
    by (rule sizing_Inr)
  have fields: "out_Lmin out = Lmin" "out_Lmax out = Lmax"
    "out_Ltot out = select_Ltot (arg_Ltot args) reply Lmin Lmax"
    using sizing_design_Inr(1,2,3) [OF sd] by simp_all
  have "select_Ltot (arg_Ltot args) reply Lmin Lmax = (Lmin + Lmax) / 2"
    using select_Ltot_midpoint [OF assms(3)] assms(2) by simp
  then have "out_Ltot out = (out_Lmin out + out_Lmax out) / 2"
    using fields by simp
  then show ?thesis
    using lb ub fields(1,2) by blast
qed

theorem midpoint_fallback_witness:
  "\<exists>out. dab_inductor_sizing_phaseShift
           \<lparr>arg_P = None, arg_V1 = None, arg_V2 = None, arg_fsw = None,
            arg_f_clk = None, arg_Llk = None, arg_n = None,
            arg_resolution_percentage = None, arg_Ltot = None\<rparr> EOFError = Some (Inr out) \<and>
         out_Ltot out = (out_Lmin out + out_Lmax out) / 2 \<and>
         (\<exists>phi max_deltaP resolution_limited.
            lower_bound_search (25 / 1000 * 1000) (1 / 2 * 1000) 100000 15 720 40
              (1 / 100000) (1 / 250000000 / (1 / 100000))
              = Some (Inr (out_Lmin out, phi, max_deltaP, resolution_limited))) \<and>
         power_upper_bound 15 720 40 1000 100000 = Inr (out_Lmax out)"
proof -
  let ?args = "\<lparr>arg_P = None, arg_V1 = None, arg_V2 = None, arg_fsw = None,
            arg_f_clk = None, arg_Llk = None, arg_n = None,
            arg_resolution_percentage = None, arg_Ltot = None\<rparr>"
  have sel: "\<And>Lmin Lmax. 0 < Lmin \<Longrightarrow> 0 < Lmax \<Longrightarrow>
               select_Ltot (arg_Ltot ?args) EOFError Lmin Lmax \<noteq> 0"
    by (simp add: select_Ltot_def)
  obtain out where run: "dab_inductor_sizing_phaseShift ?args EOFError = Some (Inr out)"
    using sizing_total [of ?args EOFError, OF _ _ _ _ _ _ _ sel]
    by (auto simp: param_defs)
  show ?thesis
    using run midpoint_fallback [OF run] by (simp add: param_defs)
qed

section \<open>Turns-ratio scaling of the RMS currents\<close>



end
